theory Spec2Isabelle
  imports Complex_Main
begin

section \<open>Anchor autocalibration solver (scripts/AutocalibrationSolver.py)\<close>

text \<open>
  The solver works on numpy arrays of floats. Numbers are modelled as \<^typ>\<open>real\<close>
  (rounding, infinities and NaN are outside the model); a one-dimensional array is a list,
  an (N, 3) or (N, N) array a list of rows, the (N, M, N) cube of range samples a list of
  (M, N) arrays. Coordinate arrays are mutable objects that the solver shares and rebinds,
  so they live in a store and are named by their address.
\<close>

type_synonym vec = "real list"
type_synonym mat = "real list list"
type_synonym cube = "real list list list"

datatype error = IndexError | ValueError

subsection \<open>Array arithmetic used by the solver\<close>

definition vsub :: "vec \<Rightarrow> vec \<Rightarrow> vec" where
  \<comment> \<open>\<open>a - b\<close> on two one-dimensional arrays\<close>
  "vsub a b = map2 (-) a b"

definition sq_sum :: "vec \<Rightarrow> real" where
  \<comment> \<open>\<open>np.sum(v ** 2)\<close>\<close>
  "sq_sum v = sum_list (map (\<lambda>x. x ^ 2) v)"

definition dot :: "mat \<Rightarrow> vec \<Rightarrow> vec" where
  \<comment> \<open>\<open>np.dot(P, B)\<close> of a matrix and a vector\<close>
  "dot P B = map (\<lambda>row. sum_list (map2 (*) row B)) P"

subsection \<open>coordinatesOpt: linear multilateration\<close>

text \<open>
  \<open>np.linalg.pinv\<close> is a library function; it is the parameter \<open>pinv\<close>. With no
  neighbour at all \<open>B[-1]\<close> raises IndexError. The docstring gives \<open>anchors_coords\<close> the
  shape (N, 3) and \<open>ranges\<close> the shape (N,); arrays of different lengths do not fit
  in the subtraction that builds \<open>B\<close>.
\<close>

definition coordinatesOpt :: "(mat \<Rightarrow> mat) \<Rightarrow> mat \<Rightarrow> vec \<Rightarrow> error + vec" where
  "coordinatesOpt pinv anchors_coords ranges =
     (if anchors_coords = [] \<or> ranges = [] then Inl IndexError
      else if length ranges \<noteq> length anchors_coords then Inl ValueError
      else
        let A0 = map (map ((*) 2)) anchors_coords;
            A1 = fold (\<lambda>i A. A[i := vsub (last A) (A ! i)]) [0..<length A0 - 1] A0;
            A = butlast A1;
            B0 = map (\<lambda>r. r ^ 2) ranges;
            B = map (\<lambda>v. v + sq_sum (last anchors_coords))
                  (vsub (map (\<lambda>v. v - last B0) (butlast B0))
                        (butlast (map sq_sum anchors_coords)))
        in Inr (dot (pinv A) B))"

subsection \<open>The store of coordinate arrays and the solver object\<close>

type_synonym addr = nat
type_synonym heap = "mat list"

definition alloc :: "heap \<Rightarrow> mat \<Rightarrow> heap \<times> addr" where
  \<comment> \<open>a new array object, as \<open>np.copy\<close> and every array-valued expression make one\<close>
  "alloc h v = (h @ [v], length h)"

record solver =
  samples_ijk :: cube
  initial_guess :: addr
  autocalibrated_coords :: addr
  fixed_anchors :: "bool list"
  max_iters :: int
  convergence_thresh :: real
  LSq_min_anchors :: int
  lower_percentile :: real
  upper_percentile :: real
  verbose :: bool

definition init :: "cube \<Rightarrow> addr \<Rightarrow> bool list \<Rightarrow> int \<Rightarrow> real \<Rightarrow> int \<Rightarrow> real \<Rightarrow> real \<Rightarrow> bool
    \<Rightarrow> solver" where
  \<comment> \<open>\<open>__init__\<close>: the estimate starts as the very object that holds the initial guess\<close>
  "init autocalibration_samples guess fixed iters thresh min_anchors lower upper verb =
     \<lparr>samples_ijk = autocalibration_samples, initial_guess = guess,
      autocalibrated_coords = guess, fixed_anchors = fixed, max_iters = iters,
      convergence_thresh = thresh, LSq_min_anchors = min_anchors,
      lower_percentile = lower, upper_percentile = upper, verbose = verb\<rparr>"

definition init_default :: "cube \<Rightarrow> addr \<Rightarrow> bool list \<Rightarrow> solver" where
  \<comment> \<open>the keyword defaults of \<open>__init__\<close>\<close>
  "init_default autocalibration_samples guess fixed =
     init autocalibration_samples guess fixed 1500 (1 / 100) 4 (25 / 100) (75 / 100) False"

definition init_main :: "cube \<Rightarrow> addr \<Rightarrow> bool list \<Rightarrow> solver" where
  \<comment> \<open>the call in \<open>main\<close> of autocalibration_solver.py\<close>
  "init_main autocalibration_samples guess fixed =
     init autocalibration_samples guess fixed 1500 (1 / 100) 4 (1 / 10) (9 / 10) False"

subsection \<open>Aggregating the sample cube\<close>

definition median :: "vec \<Rightarrow> real" where
  \<comment> \<open>\<open>np.median\<close> of a non-empty array\<close>
  "median xs =
     (let s = sort xs; n = length s
      in if even n then (s ! (n div 2 - 1) + s ! (n div 2)) / 2 else s ! (n div 2))"

definition percentile :: "vec \<Rightarrow> real \<Rightarrow> real" where
  \<comment> \<open>\<open>np.percentile(xs, q)\<close> for \<open>q\<close> in [0, 100], by the default linear interpolation\<close>
  "percentile xs q =
     (let s = sort xs; n = length s;
          pos = q / 100 * (real n - 1);
          lo = nat \<lfloor>pos\<rfloor>;
          hi = min (lo + 1) (n - 1)
      in s ! lo + (s ! hi - s ! lo) * (pos - real lo))"

definition column :: "cube \<Rightarrow> nat \<Rightarrow> nat \<Rightarrow> vec" where
  \<comment> \<open>\<open>samples_ijk[i, :, k]\<close>\<close>
  "column c i k = map (\<lambda>row. row ! k) (c ! i)"

definition median_ik :: "cube \<Rightarrow> mat" where
  \<comment> \<open>the median of the positive samples of every pair, -1 where there is none\<close>
  "median_ik c =
     (let n_anchors = length c
      in map (\<lambda>i. map (\<lambda>k. let samples = filter (\<lambda>x. x > 0) (column c i k)
                            in if length samples > 0 then median samples else - 1)
                     [0..<n_anchors]) [0..<n_anchors])"

definition n_samples :: "cube \<Rightarrow> nat" where
  \<comment> \<open>the second dimension M of the cube (an empty cube is taken to hold no sample)\<close>
  "n_samples c = (case c of [] \<Rightarrow> 0 | x # _ \<Rightarrow> length x)"

definition slice_ik :: "cube \<Rightarrow> int \<Rightarrow> error + mat" where
  \<comment> \<open>\<open>np.copy(samples_ijk[:, sample_idx, :])\<close>; a negative index counts from the end\<close>
  "slice_ik c sample_idx =
     (let M = int (n_samples c);
          j = (if sample_idx < 0 then M + sample_idx else sample_idx)
      in if 0 \<le> j \<and> j < M then Inr (map (\<lambda>plane. plane ! nat j) c)
         else Inl IndexError)"

definition percentile_ik :: "cube \<Rightarrow> real \<Rightarrow> error + mat" where
  \<comment> \<open>\<open>np.percentile(samples_ijk, q, axis = 1)\<close>\<close>
  "percentile_ik c q =
     (if q < 0 \<or> 100 < q then Inl ValueError
      else Inr (map (\<lambda>i. map (\<lambda>k. percentile (column c i k) q) [0..<length c])
                  [0..<length c]))"

definition filter_ik :: "mat \<Rightarrow> mat \<Rightarrow> mat \<Rightarrow> mat" where
  \<comment> \<open>the masks of \<open>stageTwo\<close>: a value outside the bounds becomes -1\<close>
  "filter_ik samples_ik lower_bounds upper_bounds =
     map (\<lambda>i. map (\<lambda>k. let mask1 = samples_ik ! i ! k \<le> upper_bounds ! i ! k;
                            mask2 = samples_ik ! i ! k \<ge> lower_bounds ! i ! k
                        in if mask1 \<and> mask2 then samples_ik ! i ! k else - 1)
                 [0..<length (samples_ik ! i)]) [0..<length samples_ik]"

subsection \<open>stageOne\<close>

definition gather :: "mat \<Rightarrow> mat \<Rightarrow> nat \<Rightarrow> nat \<Rightarrow> mat \<times> vec" where
  \<comment> \<open>the loop over k that fills \<open>_anchors_coords\<close> and \<open>_ranges\<close> for anchor i\<close>
  "gather samples_ik coords n_anchors i =
     fold (\<lambda>k (cs, rs). if samples_ik ! i ! k < 0 then (cs, rs)
                         else (cs @ [coords ! k], rs @ [samples_ik ! i ! k]))
       [0..<n_anchors] ([], [])"

text \<open>
  The body of the loop over the anchors. The row assignment takes the result of
  \<open>coordinatesOpt\<close>, which has three entries for a pseudo-inverse of a matrix
  of three columns.
\<close>

definition update_anchor ::
  "(mat \<Rightarrow> mat) \<Rightarrow> mat \<Rightarrow> bool list \<Rightarrow> int \<Rightarrow> nat \<Rightarrow> nat \<Rightarrow> mat \<Rightarrow> error + mat" where
  "update_anchor pinv samples_ik fixed min_anchors n_anchors i coords =
     (if fixed ! i = True then Inr coords
      else case gather samples_ik coords n_anchors i of (cs, rs) \<Rightarrow>
        if int (length cs) \<ge> min_anchors
        then (case coordinatesOpt pinv cs rs of
                Inl e \<Rightarrow> Inl e
              | Inr v \<Rightarrow> Inr (coords[i := v]))
        else Inr coords)"

fun anchors_loop ::
  "(mat \<Rightarrow> mat) \<Rightarrow> mat \<Rightarrow> bool list \<Rightarrow> int \<Rightarrow> nat \<Rightarrow> nat list \<Rightarrow> mat \<Rightarrow> error + mat" where
  "anchors_loop pinv samples_ik fixed min_anchors n_anchors [] coords = Inr coords"
| "anchors_loop pinv samples_ik fixed min_anchors n_anchors (i # is) coords =
     (case update_anchor pinv samples_ik fixed min_anchors n_anchors i coords of
        Inl e \<Rightarrow> Inl e
      | Inr coords' \<Rightarrow> anchors_loop pinv samples_ik fixed min_anchors n_anchors is coords')"

definition msub :: "mat \<Rightarrow> mat \<Rightarrow> mat" where
  \<comment> \<open>\<open>a - b\<close> on two arrays of the same shape\<close>
  "msub a b = map2 vsub a b"

definition norm_fro :: "mat \<Rightarrow> real" where
  \<comment> \<open>\<open>np.linalg.norm\<close> of a two-dimensional array\<close>
  "norm_fro d = sqrt (sum_list (map sq_sum d))"

fun iterate ::
  "(mat \<Rightarrow> mat) \<Rightarrow> mat \<Rightarrow> bool list \<Rightarrow> int \<Rightarrow> real \<Rightarrow> nat \<Rightarrow> nat \<Rightarrow> mat \<Rightarrow> error + mat" where
  "iterate pinv samples_ik fixed min_anchors thresh n_anchors 0 coords = Inr coords"
| "iterate pinv samples_ik fixed min_anchors thresh n_anchors (Suc t) coords =
     (let anchors_coords_old = coords
      in case anchors_loop pinv samples_ik fixed min_anchors n_anchors [0..<n_anchors] coords of
           Inl e \<Rightarrow> Inl e
         | Inr coords' \<Rightarrow>
             if \<bar>norm_fro (msub coords' anchors_coords_old)\<bar> < thresh then Inr coords'
             else iterate pinv samples_ik fixed min_anchors thresh n_anchors t coords')"

definition stageOne_samples :: "solver \<Rightarrow> int option \<Rightarrow> error + mat" where
  \<comment> \<open>the range matrix of a run: the median over the samples, or one sample\<close>
  "stageOne_samples s sample_idx =
     (case sample_idx of
        None \<Rightarrow> Inr (median_ik (samples_ijk s))
      | Some m \<Rightarrow> slice_ik (samples_ijk s) m)"

definition stageOne :: "(mat \<Rightarrow> mat) \<Rightarrow> heap \<times> solver \<Rightarrow> int option \<Rightarrow> error + heap \<times> solver" where
  "stageOne pinv hs sample_idx =
     (case hs of (h, s) \<Rightarrow>
      let n_anchors = length (samples_ijk s)
      in case alloc h (h ! initial_guess s) of (h1, c) \<Rightarrow>
         let s1 = s\<lparr>autocalibrated_coords := c\<rparr>
         in case stageOne_samples s1 sample_idx of
              Inl e \<Rightarrow> Inl e
            | Inr samples_ik \<Rightarrow>
               (case iterate pinv samples_ik (fixed_anchors s1) (LSq_min_anchors s1)
                       (convergence_thresh s1) n_anchors (nat (max_iters s1))
                       (h1 ! autocalibrated_coords s1) of
                  Inl e \<Rightarrow> Inl e
                | Inr coords \<Rightarrow> Inr (h1[autocalibrated_coords s1 := coords], s1)))"

subsection \<open>costOpt and stageTwo\<close>

fun rows3 :: "vec \<Rightarrow> mat" where
  "rows3 (x # y # z # r) = [x, y, z] # rows3 r"
| "rows3 _ = []"

definition reshape :: "nat \<Rightarrow> vec \<Rightarrow> error + mat" where
  \<comment> \<open>\<open>.reshape(n, 3)\<close> of an array of 3 n values\<close>
  "reshape n v = (if length v = 3 * n then Inr (rows3 v) else Inl ValueError)"

definition T_reshape :: "mat \<Rightarrow> mat" where
  \<comment> \<open>the values of \<open>anchors_coords.T.reshape(-1, 3)\<close> for an (N, 3) array: the
      transposed array read row by row, three at a time\<close>
  "T_reshape a = rows3 (concat (map (\<lambda>k. map (\<lambda>row. row ! k) a) [0..<3]))"

definition T_reshape_obj :: "heap \<Rightarrow> addr \<Rightarrow> heap \<times> addr" where
  \<comment> \<open>numpy reshapes without copying where the order of the elements allows it: for at
      most one row the result is a view of the same data, otherwise a new array\<close>
  "T_reshape_obj h a = (if length (h ! a) \<le> 1 then (h, a) else alloc h (T_reshape (h ! a)))"

definition anchors_init :: "mat \<Rightarrow> mat" where
  \<comment> \<open>the values of \<open>anchors_coords\<close> after the first line of \<open>costOpt\<close>, which
      \<open>Theta_init\<close> copies\<close>
  "anchors_init a = (if length a \<le> 1 then a else T_reshape a)"

definition pin :: "bool list \<Rightarrow> mat \<Rightarrow> mat \<Rightarrow> mat" where
  \<comment> \<open>\<open>Theta[fixed_anchors] = Theta_init[fixed_anchors]\<close>\<close>
  "pin fixed Theta_init Theta =
     map (\<lambda>i. if fixed ! i then Theta_init ! i else Theta ! i) [0..<length Theta]"

definition distances_ij :: "mat \<Rightarrow> mat" where
  \<comment> \<open>\<open>np.einsum("ijk->ij", (Theta[:, None, :] - Theta) ** 2)\<close>\<close>
  "distances_ij Theta = map (\<lambda>ti. map (\<lambda>tj. sq_sum (vsub ti tj)) Theta) Theta"

definition cost :: "mat \<Rightarrow> mat \<Rightarrow> real" where
  \<comment> \<open>the cost of \<open>_my_opt_func\<close>, after the fixed anchors are put back\<close>
  "cost Theta ranges_ik =
     (let n = length Theta;
          d = distances_ij Theta;
          cost_ij = map (\<lambda>i. map (\<lambda>j. (d ! i ! j - (ranges_ik ! i ! j) ^ 2) ^ 2) [0..<n]) [0..<n];
          cost_ij1 = map (\<lambda>i. map (\<lambda>j. if d ! i ! j = 0 then 0 else cost_ij ! i ! j) [0..<n])
                       [0..<n];
          cost_ij2 = map (\<lambda>i. map (\<lambda>j. if ranges_ik ! i ! j < 0 then 0 else cost_ij1 ! i ! j)
                                  [0..<n]) [0..<n]
      in sum_list (map sum_list cost_ij2))"

definition my_opt_func :: "vec \<Rightarrow> mat \<times> nat \<times> bool list \<times> mat \<Rightarrow> error + real \<times> mat" where
  \<comment> \<open>\<open>_my_opt_func\<close>: the cost, and the array it was given as the assignment to the
      fixed rows leaves it\<close>
  "my_opt_func Theta args =
     (case args of (ranges_ik, n_anchors, fixed, Theta_init) \<Rightarrow>
        case reshape n_anchors Theta of
          Inl e \<Rightarrow> Inl e
        | Inr Theta1 \<Rightarrow>
            let Theta2 = pin fixed Theta_init Theta1
            in Inr (cost Theta2 ranges_ik, Theta2))"

text \<open>
  \<open>scipy.optimize.fmin\<close> is a library function; it is the parameter \<open>fmin\<close>, given the
  objective and the starting array and returning a flat array. It works on arrays of its
  own: the starting array is copied before the search.
\<close>

definition costOpt ::
  "((vec \<Rightarrow> error + real) \<Rightarrow> vec \<Rightarrow> vec) \<Rightarrow> heap \<Rightarrow> addr \<Rightarrow> mat \<Rightarrow> bool list \<Rightarrow> bool
     \<Rightarrow> error + heap \<times> addr" where
  "costOpt fmin h a ranges_ik fixed verb =
     (case T_reshape_obj h a of (h1, anchors_coords) \<Rightarrow>
      case alloc h1 (h1 ! anchors_coords) of (h2, Theta_init) \<Rightarrow>
      let n_anchors = length (h2 ! anchors_coords);
          args = (ranges_ik, n_anchors, fixed, h2 ! Theta_init)
      in case (if verb
               then (case my_opt_func (concat (h2 ! anchors_coords)) args of
                       Inl e \<Rightarrow> Inl e
                     | Inr (c, Theta) \<Rightarrow> Inr (h2[anchors_coords := Theta]))
               else Inr h2) of
           Inl e \<Rightarrow> Inl e
         | Inr h3 \<Rightarrow>
            let Theta_opt = fmin (\<lambda>Theta. map_sum id fst (my_opt_func Theta args))
                              (concat (h3 ! anchors_coords))
            in case (if verb then map_sum id snd (my_opt_func Theta_opt args)
                     else reshape n_anchors Theta_opt) of
                 Inl e \<Rightarrow> Inl e
               | Inr Theta_opt1 \<Rightarrow>
                   Inr (alloc h3 (pin fixed (h3 ! Theta_init) Theta_opt1)))"

definition stageTwo_samples :: "solver \<Rightarrow> int option \<Rightarrow> error + mat" where
  \<comment> \<open>the range matrix handed to \<open>costOpt\<close>: the median, or one sample filtered by
      the percentile bounds\<close>
  "stageTwo_samples s sample_idx =
     (case sample_idx of
        None \<Rightarrow> Inr (median_ik (samples_ijk s))
      | Some m \<Rightarrow>
         (case slice_ik (samples_ijk s) m of
            Inl e \<Rightarrow> Inl e
          | Inr samples_ik \<Rightarrow>
             (case percentile_ik (samples_ijk s) (lower_percentile s) of
                Inl e \<Rightarrow> Inl e
              | Inr lower_bounds \<Rightarrow>
                 (case percentile_ik (samples_ijk s) (upper_percentile s) of
                    Inl e \<Rightarrow> Inl e
                  | Inr upper_bounds \<Rightarrow>
                      Inr (filter_ik samples_ik lower_bounds upper_bounds)))))"

definition stageTwo ::
  "((vec \<Rightarrow> error + real) \<Rightarrow> vec \<Rightarrow> vec) \<Rightarrow> heap \<times> solver \<Rightarrow> int option
     \<Rightarrow> error + (heap \<times> solver) \<times> addr" where
  "stageTwo fmin hs sample_idx =
     (case hs of (h, s) \<Rightarrow>
      case stageTwo_samples s sample_idx of
        Inl e \<Rightarrow> Inl e
      | Inr samples_ik \<Rightarrow>
         (case costOpt fmin h (autocalibrated_coords s) samples_ik (fixed_anchors s) (verbose s) of
            Inl e \<Rightarrow> Inl e
          | Inr (h', Theta_opt) \<Rightarrow> Inr ((h', s), Theta_opt)))"

subsection \<open>One round of the loop in main (autocalibration_solver.py)\<close>

text \<open>
  \<open>stageOne(sample_idx = j)\<close>, then \<open>stageTwo(sample_idx = j)\<close> whose value is dropped,
  then the copy of \<open>autocalibrated_coords\<close> that is kept as the result for sample j. The
  address that \<open>stageTwo\<close> returned is given as well, to compare.
\<close>

definition main_sample ::
  "(mat \<Rightarrow> mat) \<Rightarrow> ((vec \<Rightarrow> error + real) \<Rightarrow> vec \<Rightarrow> vec) \<Rightarrow> heap \<times> solver \<Rightarrow> int
     \<Rightarrow> error + (heap \<times> solver) \<times> addr \<times> mat" where
  "main_sample pinv fmin hs j =
     (case stageOne pinv hs (Some j) of
        Inl e \<Rightarrow> Inl e
      | Inr hs1 \<Rightarrow>
         (case stageTwo fmin hs1 (Some j) of
            Inl e \<Rightarrow> Inl e
          | Inr (hs2, Theta_opt) \<Rightarrow>
              Inr (hs2, Theta_opt, fst hs2 ! autocalibrated_coords (snd hs2))))"

subsection \<open>estimationError\<close>

datatype ndarray = Array1 vec | Array2 mat

definition estimationError :: "heap \<times> solver \<Rightarrow> mat \<Rightarrow> int option \<Rightarrow> error + ndarray" where
  "estimationError hs gt axis =
     (case hs of (h, s) \<Rightarrow>
      let est = h ! autocalibrated_coords s
      in case axis of
           Some ax \<Rightarrow>
             (let est_error = msub est gt;
                  j = (if ax < 0 then 3 + ax else ax)
              in if 0 \<le> j \<and> j < 3 then Inr (Array1 (map (\<lambda>row. row ! nat j) est_error))
                 else Inl IndexError)
         | None \<Rightarrow>
             Inr (Array2 (map (\<lambda>e. map (\<lambda>g. sqrt (sq_sum (vsub e g))) gt) est)))"

subsection \<open>Instances of the library parameters\<close>

definition pinv_diagonal :: "mat \<Rightarrow> mat" where
  \<comment> \<open>the Moore-Penrose pseudo-inverse of a square diagonal matrix: the non-zero
      entries are inverted\<close>
  "pinv_diagonal A = map (map (\<lambda>x. if x = 0 then 0 else 1 / x)) A"

definition fmin_start :: "(vec \<Rightarrow> error + real) \<Rightarrow> vec \<Rightarrow> vec" where
  \<comment> \<open>a search that stops at once and returns its starting point\<close>
  "fmin_start f x0 = x0"

definition fmin_to :: "vec \<Rightarrow> (vec \<Rightarrow> error + real) \<Rightarrow> vec \<Rightarrow> vec" where
  \<comment> \<open>a search that arrives at the point \<open>x\<close>\<close>
  "fmin_to x f x0 = x"

subsection \<open>The specification's wording\<close>

text \<open>The linear multilateration subroutine (section 4.2.1).\<close>

definition spec_A :: "mat \<Rightarrow> mat" where
  "spec_A coord =
     (let K = length coord
      in map (\<lambda>i. map ((*) 2) (vsub (coord ! (K - 1)) (coord ! i))) [0..<K - 1])"

definition spec_b :: "mat \<Rightarrow> vec \<Rightarrow> vec" where
  "spec_b coord rng =
     (let K = length coord
      in map (\<lambda>i. (rng ! i) ^ 2 - (rng ! (K - 1)) ^ 2 - sq_sum (coord ! i)
                     + sq_sum (coord ! (K - 1))) [0..<K - 1])"

text \<open>
  The iteration of the linear multilateration stage (section 4.2), over the subroutine
  \<open>solve\<close>: the anchors in index order, a fixed anchor skipped, the neighbours of anchor
  i the anchors \<open>k \<noteq> i\<close> with a range that is not negative, with their estimates as
  they are at that moment of the pass.
\<close>

definition spec_neighbours :: "mat \<Rightarrow> nat \<Rightarrow> nat list" where
  "spec_neighbours rangeMatrix i =
     filter (\<lambda>k. k \<noteq> i \<and> rangeMatrix ! i ! k \<ge> 0) [0..<length rangeMatrix]"

definition spec_anchor ::
  "(mat \<Rightarrow> vec \<Rightarrow> error + vec) \<Rightarrow> mat \<Rightarrow> bool list \<Rightarrow> int \<Rightarrow> mat \<Rightarrow> nat \<Rightarrow> error + mat" where
  "spec_anchor solve rangeMatrix fixedMask minAnchorsForSolve est i =
     (if fixedMask ! i then Inr est
      else let ks = spec_neighbours rangeMatrix i
           in if minAnchorsForSolve \<le> int (length ks)
              then map_sum id (\<lambda>x. est[i := x])
                     (solve (map (\<lambda>k. est ! k) ks) (map (\<lambda>k. rangeMatrix ! i ! k) ks))
              else Inr est)"

definition spec_pass ::
  "(mat \<Rightarrow> vec \<Rightarrow> error + vec) \<Rightarrow> mat \<Rightarrow> bool list \<Rightarrow> int \<Rightarrow> mat \<Rightarrow> error + mat" where
  "spec_pass solve rangeMatrix fixedMask minAnchorsForSolve est =
     foldl (\<lambda>acc i. case acc of
                      Inl e \<Rightarrow> Inl e
                    | Inr cur \<Rightarrow> spec_anchor solve rangeMatrix fixedMask minAnchorsForSolve cur i)
       (Inr est) [0..<length rangeMatrix]"

definition spec_norm :: "mat \<Rightarrow> mat \<Rightarrow> real" where
  \<comment> \<open>the Euclidean norm of (current - previous) over all values\<close>
  "spec_norm cur prev =
     sqrt (\<Sum>(c, p)\<leftarrow>zip cur prev. \<Sum>(x, y)\<leftarrow>zip c p. (x - y) ^ 2)"

fun spec_iterations ::
  "(mat \<Rightarrow> vec \<Rightarrow> error + vec) \<Rightarrow> mat \<Rightarrow> bool list \<Rightarrow> int \<Rightarrow> real \<Rightarrow> nat \<Rightarrow> mat \<Rightarrow> error + mat" where
  "spec_iterations solve rangeMatrix fixedMask minAnchorsForSolve convergenceThresh 0 est =
     Inr est"
| "spec_iterations solve rangeMatrix fixedMask minAnchorsForSolve convergenceThresh (Suc t) est =
     (case spec_pass solve rangeMatrix fixedMask minAnchorsForSolve est of
        Inl e \<Rightarrow> Inl e
      | Inr cur \<Rightarrow>
          if spec_norm cur est < convergenceThresh then Inr cur
          else spec_iterations solve rangeMatrix fixedMask minAnchorsForSolve convergenceThresh
                 t cur)"

definition spec_refine ::
  "(mat \<Rightarrow> vec \<Rightarrow> error + vec) \<Rightarrow> mat \<Rightarrow> mat \<Rightarrow> bool list \<Rightarrow> int \<Rightarrow> real \<Rightarrow> int \<Rightarrow> error + mat" where
  "spec_refine solve rangeMatrix initialGuess fixedMask maxIters convergenceThresh
       minAnchorsForSolve =
     spec_iterations solve rangeMatrix fixedMask minAnchorsForSolve convergenceThresh
       (nat maxIters) initialGuess"

text \<open>The cost of the nonlinear refinement stage (section 4.3).\<close>

definition spec_cost :: "mat \<Rightarrow> mat \<Rightarrow> real" where
  "spec_cost \<Theta> rangeMatrix =
     (\<Sum>(i, j)\<leftarrow>filter (\<lambda>(i, j). i \<noteq> j \<and> rangeMatrix ! i ! j \<ge> 0)
                    (List.product [0..<length \<Theta>] [0..<length \<Theta>]).
        (sq_sum (vsub (\<Theta> ! i) (\<Theta> ! j)) - (rangeMatrix ! i ! j) ^ 2) ^ 2)"

section \<open>Properties\<close>

lemma A_loop:
  "n < length A \<Longrightarrow>
   fold (\<lambda>i A. A[i := vsub (last A) (A ! i)]) [0..<n] A =
     map (\<lambda>i. if i < n then vsub (last A) (A ! i) else A ! i) [0..<length A]"
proof (induction n)
  case 0
  then show ?case by (simp add: map_nth)
next
  case (Suc n)
  let ?M = "map (\<lambda>i. if i < n then vsub (last A) (A ! i) else A ! i) [0..<length A]"
  from Suc.prems obtain m where m: "length A = Suc m" and nm: "n < m"
    by (cases "length A") auto
  have n: "n < length A" using m nm by simp
  have A: "A \<noteq> []" using m by auto
  have "?M \<noteq> []" using A by simp
  then have "last ?M = ?M ! m"
    by (simp add: last_conv_nth m del: upt_Suc)
  also have "\<dots> = A ! m"
    using nm by (simp add: m del: upt_Suc)
  finally have l: "last ?M = last A"
    using A by (simp add: last_conv_nth m)
  have "fold (\<lambda>i A. A[i := vsub (last A) (A ! i)]) [0..<Suc n] A
          = ?M[n := vsub (last ?M) (?M ! n)]"
    using Suc.IH [OF n] by simp
  also have "\<dots> = ?M[n := vsub (last A) (A ! n)]"
    using n by (simp add: l)
  also have "\<dots> = map (\<lambda>i. if i < Suc n then vsub (last A) (A ! i) else A ! i) [0..<length A]"
    using n by (intro nth_equalityI) (auto simp: nth_list_update less_Suc_eq)
  finally show ?case .
qed

lemma vsub_scale: "vsub (map ((*) c) a) (map ((*) c) b) = map ((*) c) (vsub a b)"
proof (induction a arbitrary: b)
  case Nil
  then show ?case by (simp add: vsub_def)
next
  case (Cons x a)
  then show ?case by (cases b) (simp_all add: vsub_def right_diff_distrib)
qed

text \<open>
  C5. For K >= 2 neighbour coordinates and K ranges, \<open>coordinatesOpt\<close> returns
  \<open>pinv(A) . b\<close> without raising, where row i of the (K-1) x 3 matrix A is
  \<open>2 (coord[K-1] - coord[i])\<close> and
  \<open>b[i] = range[i]^2 - range[K-1]^2 - |coord[i]|^2 + |coord[K-1]|^2\<close>. No rank check
  happens: the result is whatever the pseudo-inverse gives.
\<close>

theorem coordinatesOpt_spec:
  assumes "2 \<le> length coord" and "length rng = length coord"
  shows "coordinatesOpt pinv coord rng = Inr (dot (pinv (spec_A coord)) (spec_b coord rng))"
proof -
  let ?A0 = "map (map ((*) 2)) coord"
  from assms obtain m where m: "length coord = Suc m" and m0: "0 < m"
    by (cases "length coord") auto
  have ne: "coord \<noteq> []" "rng \<noteq> []" using assms m by auto
  have lastA0: "last ?A0 = map ((*) 2) (coord ! m)"
    using ne by (simp add: last_map last_conv_nth m)
  have "fold (\<lambda>i A. A[i := vsub (last A) (A ! i)]) [0..<length ?A0 - 1] ?A0
          = map (\<lambda>i. if i < m then vsub (last ?A0) (?A0 ! i) else ?A0 ! i) [0..<Suc m]"
    using A_loop [of m ?A0] by (simp add: m)
  then have A: "butlast (fold (\<lambda>i A. A[i := vsub (last A) (A ! i)]) [0..<length ?A0 - 1] ?A0)
          = spec_A coord"
    by (simp add: spec_A_def m lastA0 vsub_scale)
  have B: "map (\<lambda>v. v + sq_sum (last coord))
             (vsub (map (\<lambda>v. v - last (map (\<lambda>r. r ^ 2) rng)) (butlast (map (\<lambda>r. r ^ 2) rng)))
                   (butlast (map sq_sum coord)))
          = spec_b coord rng"
    using assms ne
    by (intro nth_equalityI)
       (simp_all add: nth_butlast spec_b_def vsub_def last_map last_conv_nth m)
  show ?thesis
    unfolding coordinatesOpt_def Let_def A B using ne assms by simp
qed

text \<open>Three neighbours on the axes and the reference neighbour at the origin.\<close>

theorem coordinatesOpt_spec_witness:
  "coordinatesOpt pinv_diagonal [[1, 0, 0], [0, 1, 0], [0, 0, 1], [0, 0, 0]] [1, 1, 1, 1]
     = Inr [1 / 2, 1 / 2, 1 / 2]"
  using coordinatesOpt_spec [of "[[1, 0, 0], [0, 1, 0], [0, 0, 1], [0, 0, 0]]" "[1, 1, 1, 1]"
          pinv_diagonal]
  by (simp add: spec_A_def spec_b_def dot_def pinv_diagonal_def vsub_def sq_sum_def
        upt_conv_Cons)


subsection \<open>costOpt: what it returns and what it leaves alone\<close>

lemma length_rows3: "length (rows3 v) = length v div 3"
  by (induction v rule: rows3.induct) simp_all

lemma rows3_row: "length r = 3 \<Longrightarrow> rows3 r = [r]"
  by (cases r rule: rows3.cases) auto

lemma rows3_view:
  assumes "length xs \<le> 1" and "length (concat xs) = 3 * length xs"
  shows "rows3 (concat xs) = xs"
proof (cases xs)
  case Nil
  then show ?thesis by simp
next
  case (Cons r rs)
  with assms have "rs = []" and "length r = 3" by auto
  then show ?thesis using Cons by (simp add: rows3_row)
qed

lemma length_pin [simp]: "length (pin fixed Ti T) = length T"
  by (simp add: pin_def)

lemma pin_self: "pin fixed T T = T"
  by (simp add: pin_def map_nth)

lemma pin_fixed_row: "i < length T \<Longrightarrow> fixed ! i \<Longrightarrow> pin fixed Ti T ! i = Ti ! i"
  by (simp add: pin_def)

lemma pin_free_row: "i < length T \<Longrightarrow> \<not> fixed ! i \<Longrightarrow> pin fixed Ti T ! i = T ! i"
  by (simp add: pin_def)

lemma pin_idem: "pin fixed Ti (pin fixed Ti T) = pin fixed Ti T"
  by (simp add: pin_def)

lemma length_T_reshape [simp]: "length (T_reshape a) = length a"
  by (simp add: T_reshape_def length_rows3 upt_conv_Cons)

lemma reshape_Inr: "reshape n v = Inr T \<longleftrightarrow> length v = 3 * n \<and> T = rows3 v"
  by (auto simp: reshape_def)

lemma reshape_Inl: "reshape n v = Inl e \<longleftrightarrow> length v \<noteq> 3 * n \<and> e = ValueError"
  by (auto simp: reshape_def)

lemma my_opt_func_Inr:
  "my_opt_func v (R, n, fixed, Ti) = Inr (c, T) \<longleftrightarrow>
     length v = 3 * n \<and> T = pin fixed Ti (rows3 v) \<and> c = cost T R"
  by (auto simp: my_opt_func_def reshape_def Let_def)

lemma my_opt_func_eq:
  "my_opt_func v (R, n, fixed, Ti) =
     (if length v = 3 * n
      then Inr (cost (pin fixed Ti (rows3 v)) R, pin fixed Ti (rows3 v))
      else Inl ValueError)"
  by (simp add: my_opt_func_def reshape_def Let_def)

lemma my_opt_func_Inl:
  "my_opt_func v (R, n, fixed, Ti) = Inl e \<longleftrightarrow> length v \<noteq> 3 * n \<and> e = ValueError"
  by (auto simp: my_opt_func_def reshape_def Let_def)

lemma rows3_rows: "r \<in> set (rows3 v) \<Longrightarrow> length r = 3"
  by (induction v rule: rows3.induct) auto

lemma rows3_concat: "\<forall>r\<in>set T. length r = 3 \<Longrightarrow> rows3 (concat T) = T"
proof (induction T)
  case Nil
  then show ?case by simp
next
  case (Cons r T)
  then obtain x y z where "r = [x, y, z]"
    by (cases r rule: rows3.cases) auto
  with Cons show ?case by simp
qed

lemma length_concat_rows3: "length (concat (rows3 v)) = 3 * (length v div 3)"
  by (induction v rule: rows3.induct) simp_all

lemma length_anchors_init [simp]: "length (anchors_init a) = length a"
  by (simp add: anchors_init_def)

lemma rows3_anchors_init:
  "length (concat (anchors_init a)) = 3 * length a \<Longrightarrow>
   rows3 (concat (anchors_init a)) = anchors_init a"
  by (auto simp: anchors_init_def rows3_view T_reshape_def rows3_concat rows3_rows)

lemma length_concat_T_reshape: "length (concat (T_reshape a)) = 3 * length a"
  by (simp add: T_reshape_def length_concat_rows3 upt_conv_Cons)

lemma costOpt_unfold:
  assumes "a < length h"
  shows "costOpt fmin h a R fixed verb =
    (let Ti = anchors_init (h ! a);
         h2 = (if length (h ! a) \<le> 1 then h else h @ [Ti]) @ [Ti];
         n = length (h ! a);
         x0 = concat Ti;
         Topt = fmin (\<lambda>Theta. map_sum id fst (my_opt_func Theta (R, n, fixed, Ti))) x0
     in if verb \<and> length x0 \<noteq> 3 * n then Inl ValueError
        else if length Topt \<noteq> 3 * n then Inl ValueError
        else Inr (h2 @ [pin fixed Ti (rows3 Topt)], length h2))"
proof (cases "length (h ! a) \<le> 1")
  case True
  then have Ti: "anchors_init (h ! a) = h ! a" by (simp add: anchors_init_def)
  have upd: "length (concat (h ! a)) = 3 * length (h ! a) \<Longrightarrow>
      (h @ [h ! a])[a := pin fixed (h ! a) (rows3 (concat (h ! a)))] = h @ [h ! a]"
    using True assms by (simp add: rows3_view pin_self list_update_append list_update_same_conv)
  show ?thesis
    using True assms 
    by (cases verb)
       (simp_all add: costOpt_def T_reshape_obj_def alloc_def Let_def Ti nth_append,
        simp_all add: my_opt_func_eq reshape_def upd pin_idem alloc_def nth_append)
next
  case False
  then have Ti: "anchors_init (h ! a) = T_reshape (h ! a)" by (simp add: anchors_init_def)
  have r: "rows3 (concat (T_reshape (h ! a))) = T_reshape (h ! a)"
    by (simp add: T_reshape_def rows3_concat rows3_rows)
  show ?thesis
    using False assms
    by (cases verb)
       (simp_all add: costOpt_def T_reshape_obj_def alloc_def Let_def Ti nth_append,
        simp_all add: my_opt_func_eq reshape_def pin_idem pin_self r length_concat_T_reshape
          alloc_def nth_append)
qed


lemma costOpt_error:
  "a < length h \<Longrightarrow> costOpt fmin h a R fixed verb = Inl e \<Longrightarrow> e = ValueError"
  by (simp add: costOpt_unfold Let_def split: if_splits)

lemma costOpt_frame:
  assumes "costOpt fmin h a R fixed verb = Inr (h', t)" and "a < length h"
  shows "(\<forall>b<length h. h' ! b = h ! b) \<and> length h \<le> t \<and> t < length h'"
  using assms by (auto simp: costOpt_unfold Let_def nth_append split: if_splits)

lemma costOpt_result:
  assumes "costOpt fmin h a R fixed verb = Inr (h', t)" and "a < length h"
  shows "\<exists>T. length T = length (h ! a) \<and> (\<forall>r\<in>set T. length r = 3)
           \<and> h' ! t = pin fixed (anchors_init (h ! a)) T"
proof -
  let ?Ti = "anchors_init (h ! a)"
  let ?Topt = "fmin (\<lambda>Theta. map_sum id fst
                 (my_opt_func Theta (R, length (h ! a), fixed, ?Ti))) (concat ?Ti)"
  from assms have len: "length ?Topt = 3 * length (h ! a)"
    and res: "h' ! t = pin fixed ?Ti (rows3 ?Topt)"
    by (auto simp: costOpt_unfold Let_def nth_append split: if_splits)
  from len have "length (rows3 ?Topt) = length (h ! a)"
    by (simp add: length_rows3)
  with res show ?thesis by (blast dest: rows3_rows)
qed


text \<open>
  C1. The claim: a fixed anchor keeps the coordinate of the initial guess through Stage 1,
  and in Stage 2 the row of a fixed anchor is its row of the input estimate. The first
  line of \<open>costOpt\<close> transposes the (N, 3) input before it reshapes it, so
  \<open>Theta_init\<close> holds the input's values in another order, and the rows that are
  written back come from there. With anchor 0 fixed at (0, 1, 2) and anchor 1 at
  (3, 4, 5), every result of \<open>costOpt\<close> has (0, 3, 1) in row 0, whatever the search
  returns.
\<close>

theorem costOpt_fixed_row_not_kept:
  "map_sum id (\<lambda>(h', t). h' ! t ! 0)
     (costOpt fmin [[[0, 1, 2], [3, 4, 5]]] 0 R [True, False] verb)
   \<in> {Inl ValueError, Inr [0, 3, 1]}"
proof (cases "costOpt fmin [[[0, 1, 2], [3, 4, 5]]] 0 R [True, False] verb")
  case (Inl e)
  then show ?thesis using costOpt_error [of 0 "[[[0, 1, 2], [3, 4, 5]]]"] by simp
next
  case (Inr r)
  obtain h' t where r: "r = (h', t)" by (cases r)
  have "\<exists>T. length T = 2
          \<and> h' ! t = pin [True, False] (anchors_init [[0, 1, 2], [3, 4, 5]]) T"
    using costOpt_result [of fmin "[[[0, 1, 2], [3, 4, 5]]]" 0 R "[True, False]" verb h' t]
      Inr r by (auto simp: numeral_2_eq_2)
  then obtain T where "length T = 2"
    and "h' ! t = pin [True, False] (anchors_init [[0, 1, 2], [3, 4, 5]]) T"
    by blast
  then have "h' ! t ! 0 = [0, 3, 1]"
    by (simp add: pin_fixed_row anchors_init_def T_reshape_def upt_conv_Cons)
  then show ?thesis using Inr r by simp
qed

text \<open>
  C3. The claim: the cost is the sum, over the ordered pairs of different anchors with a
  range that is not negative, of the squared residual, and every such pair is counted.
  The code removes the entries where the squared distance is 0 (the comment says
  "remove j = i costs"), so a pair of different anchors at the same coordinates is
  dropped too: two anchors at the origin with range 1 cost 0, not 2.
\<close>

theorem my_opt_func_drops_coincident_pair:
  "map_sum id fst (my_opt_func [0, 0, 0, 0, 0, 0]
      ([[- 1, 1], [1, - 1]], 2, [False, False], [[0, 0, 0], [0, 0, 0]])) = Inr 0
   \<and> spec_cost [[0, 0, 0], [0, 0, 0]] [[- 1, 1], [1, - 1]] = 2"
  by (simp add: my_opt_func_def reshape_def pin_def cost_def distances_ij_def vsub_def
        sq_sum_def spec_cost_def upt_conv_Cons Let_def)

text \<open>
  C6. The claim: in the filtered mode the bounds are the 25th and 75th percentiles by
  default (the 10th and 90th in main). The configured numbers 0.25 and 0.75 (0.1 and 0.9)
  go to \<open>np.percentile\<close> as they are, and it reads them on the scale 0 to 100. For the
  samples 1, 2, 3, 4, 5 of a pair the 25th and 75th percentiles are 2 and 4, which would
  keep the sample 3, and the solver with the default configuration replaces it by -1.
\<close>

theorem stageTwo_samples_default_bounds:
  "stageTwo_samples
     (init_default [[[- 1, 1], [- 1, 2], [- 1, 3], [- 1, 4], [- 1, 5]],
                    [[1, - 1], [2, - 1], [3, - 1], [4, - 1], [5, - 1]]] 0 [False, False])
     (Some 2) = Inr [[- 1, - 1], [- 1, - 1]]
   \<and> percentile [1, 2, 3, 4, 5] 25 = 2 \<and> percentile [1, 2, 3, 4, 5] 75 = 4"
  by (simp add: stageTwo_samples_def init_default_def init_def slice_ik_def n_samples_def
        percentile_ik_def percentile_def column_def filter_ik_def upt_conv_Cons Let_def)

text \<open>
  C7. The claim: the update of anchor i in Stage 1 never takes anchor i itself as a
  neighbour, whatever is stored at (i, i), and the Stage 2 cost has no term for i = j.
  The loop of Stage 1 tests the range only: with 0 on the diagonal, anchor 0 at (5, 5, 5)
  is gathered as its own neighbour.
\<close>

theorem gather_takes_self:
  "gather [[0, 1], [1, 0]] [[5, 5, 5], [1, 0, 0]] 2 0 = ([[5, 5, 5], [1, 0, 0]], [0, 1])"
  by (simp add: gather_def upt_conv_Cons)

text \<open>
  C9. The claim: without an axis, \<open>estimationError\<close> returns the N distances between
  each anchor's estimate and its own ground truth. The code subtracts the ground truth
  from \<open>autocalibrated_coords[:, None, :]\<close>, which pairs every estimate with every
  ground truth row: for two anchors estimated exactly, the result is a 2 x 2 array with
  the distance 1 between the two anchors off the diagonal, in place of (0, 0).
\<close>

theorem estimationError_all_pairs:
  "estimationError ([[[0, 0, 0], [1, 0, 0]]], init_default c 0 fixed)
     [[0, 0, 0], [1, 0, 0]] None = Inr (Array2 [[0, 1], [1, 0]])"
  by (simp add: estimationError_def init_default_def init_def vsub_def sq_sum_def)


text \<open>
  C8. The claim: the cost at the coordinates that \<open>costOpt\<close> returns is at most the
  cost at the coordinates it was given. With the anchors at (0, 0, 3), (4, 0, 0) and
  (0, 0, 0), the first two fixed, and the exact ranges 5, 3 and 4, the cost of the input
  is 0. \<open>costOpt\<close> reads the input transposed (see C1), so the two fixed rows come out
  as (0, 4, 0) and (0, 0, 0), at distance 4 where the range is 5: whatever the search
  returns for the free anchor, the cost of the result is at least 162.
\<close>

lemma cost_example:
  "162 \<le> cost [[0, 4, 0], [0, 0, 0], [x, y, z]] [[- 1, 5, 3], [5, - 1, 4], [3, 4, - 1]]"
  by (simp add: cost_def distances_ij_def vsub_def sq_sum_def upt_conv_Cons Let_def)

theorem costOpt_cost_not_monotone:
  "cost [[0, 0, 3], [4, 0, 0], [0, 0, 0]] [[- 1, 5, 3], [5, - 1, 4], [3, 4, - 1]] = 0 \<and>
   (case costOpt fmin [[[0, 0, 3], [4, 0, 0], [0, 0, 0]]] 0
           [[- 1, 5, 3], [5, - 1, 4], [3, 4, - 1]] [True, True, False] verb of
      Inl e \<Rightarrow> e = ValueError
    | Inr (h', t) \<Rightarrow> 162 \<le> cost (h' ! t) [[- 1, 5, 3], [5, - 1, 4], [3, 4, - 1]])"
proof
  show "cost [[0, 0, 3], [4, 0, 0], [0, 0, 0]] [[- 1, 5, 3], [5, - 1, 4], [3, 4, - 1]] = 0"
    by (simp add: cost_def distances_ij_def vsub_def sq_sum_def upt_conv_Cons Let_def)
next
  let ?h = "[[[0, 0, 3], [4, 0, 0], [0, 0, 0]]] :: heap"
  let ?R = "[[- 1, 5, 3], [5, - 1, 4], [3, 4, - 1]] :: mat"
  show "case costOpt fmin ?h 0 ?R [True, True, False] verb of
      Inl e \<Rightarrow> e = ValueError
    | Inr (h', t) \<Rightarrow> 162 \<le> cost (h' ! t) ?R"
  proof (cases "costOpt fmin ?h 0 ?R [True, True, False] verb")
    case (Inl e)
    then show ?thesis using costOpt_error [of 0 ?h] by simp
  next
    case (Inr r)
    obtain h' t where r: "r = (h', t)" by (cases r)
    have "\<exists>T. length T = 3 \<and> (\<forall>r\<in>set T. length r = 3)
          \<and> h' ! t = pin [True, True, False] (anchors_init [[0, 0, 3], [4, 0, 0], [0, 0, 0]]) T"
      using costOpt_result [of fmin ?h 0 ?R "[True, True, False]" verb h' t] Inr r
      by (simp add: numeral_3_eq_3)
    then obtain T where T: "length T = 3" and rows: "\<forall>r\<in>set T. length r = 3"
      and res: "h' ! t = pin [True, True, False]
                  (anchors_init [[0, 0, 3], [4, 0, 0], [0, 0, 0]]) T"
      by blast
    from rows T have "length (T ! Suc (Suc 0)) = 3" by simp
    then obtain x y z where c: "T ! Suc (Suc 0) = [x, y, z]"
      by (cases "T ! Suc (Suc 0)" rule: rows3.cases) auto
    have "h' ! t = [[0, 4, 0], [0, 0, 0], [x, y, z]]"
      using T c by (simp add: res pin_def anchors_init_def T_reshape_def upt_conv_Cons)
    then show ?thesis using Inr r cost_example [of x y z] by simp
  qed
qed



subsection \<open>A run on one sample\<close>

lemma iterate_converged:
  assumes "anchors_loop pinv S fixed m n [0..<n] c = Inr c'"
    and "\<bar>norm_fro (msub c' c)\<bar> < th" and "0 < t"
  shows "iterate pinv S fixed m th n t c = Inr c'"
proof -
  from assms(3) obtain t' where "t = Suc t'" by (cases t) auto
  with assms(1,2) show ?thesis by simp
qed

lemma anchors_loop_example:
  "anchors_loop pinv [[- 1, 2], [2, - 1]] [True, False] 4 (Suc (Suc 0)) [0..<Suc (Suc 0)]
       [[0, 0, 0], [0, 0, 1]]
     = Inr [[0, 0, 0], [0, 0, 1]]"
  by (simp add: update_anchor_def gather_def upt_conv_Cons)

lemma norm_fro_example: "\<bar>norm_fro (msub [[0, 0, 0], [0, 0, 1]] [[0, 0, 0], [0, 0, 1]])\<bar> < 1 / 100"
  by (simp add: msub_def vsub_def norm_fro_def sq_sum_def)

lemma stageOne_example:
  "stageOne pinv ([[[0, 0, 0], [0, 0, 1]]], init_main [[[- 1, 2]], [[2, - 1]]] 0 [True, False]) (Some 0)
   = Inr ([[[0, 0, 0], [0, 0, 1]], [[0, 0, 0], [0, 0, 1]]],
          (init_main [[[- 1, 2]], [[2, - 1]]] 0 [True, False])\<lparr>autocalibrated_coords := 1\<rparr>)"
  using iterate_converged [OF anchors_loop_example norm_fro_example, of 1500 pinv]
  by (simp add: stageOne_def alloc_def init_main_def init_def stageOne_samples_def slice_ik_def
        n_samples_def Let_def)


lemma stageTwo_example:
  "stageTwo (fmin_to [0, 0, 0, 0, 0, 2])
     ([[[0, 0, 0], [0, 0, 1]], [[0, 0, 0], [0, 0, 1]]],
      (init_main [[[- 1, 2]], [[2, - 1]]] 0 [True, False])\<lparr>autocalibrated_coords := 1\<rparr>) (Some 0)
   = Inr (([[[0, 0, 0], [0, 0, 1]], [[0, 0, 0], [0, 0, 1]], [[0, 0, 0], [0, 0, 1]],
            [[0, 0, 0], [0, 0, 1]], [[0, 0, 0], [0, 0, 2]]],
      (init_main [[[- 1, 2]], [[2, - 1]]] 0 [True, False])\<lparr>autocalibrated_coords := 1\<rparr>), 4)"
  by (simp add: stageTwo_def stageTwo_samples_def init_main_def init_def slice_ik_def n_samples_def
        percentile_ik_def percentile_def column_def filter_ik_def upt_conv_Cons Let_def
        costOpt_unfold anchors_init_def T_reshape_def fmin_to_def pin_def)


text \<open>
  C2. The claim: after \<open>stageOne\<close> and \<open>stageTwo\<close> the stored estimate
  \<open>autocalibrated_coords\<close> is the estimate refined by Stage 2. \<open>stageTwo\<close> returns the
  refined array and assigns nothing, and \<open>main\<close> drops the returned value and copies
  \<open>autocalibrated_coords\<close>. Two anchors, the first fixed at the origin, the second
  guessed at (0, 0, 1) with the measured range 2: when the search arrives at (0, 0, 2),
  the array returned by \<open>stageTwo\<close> (at address 4) holds it, and the stored estimate that
  \<open>main\<close> keeps is still the guess.
\<close>

theorem main_sample_keeps_stageOne_estimate:
  "main_sample pinv (fmin_to [0, 0, 0, 0, 0, 2])
     ([[[0, 0, 0], [0, 0, 1]]], init_main [[[- 1, 2]], [[2, - 1]]] 0 [True, False]) 0
   = Inr (([[[0, 0, 0], [0, 0, 1]], [[0, 0, 0], [0, 0, 1]], [[0, 0, 0], [0, 0, 1]],
            [[0, 0, 0], [0, 0, 1]], [[0, 0, 0], [0, 0, 2]]],
           (init_main [[[- 1, 2]], [[2, - 1]]] 0 [True, False])\<lparr>autocalibrated_coords := 1\<rparr>),
          4, [[0, 0, 0], [0, 0, 1]])"
  unfolding main_sample_def stageOne_example sum.case stageTwo_example
  by simp

text \<open>
  C10. \<open>stageTwo\<close> changes neither the solver object nor the values of any array that
  existed before the call, the stored estimate and the array passed to \<open>costOpt\<close>
  among them: the refined coordinates are in an array allocated by the call. (Where
  \<open>costOpt\<close> works on a view of its argument and writes the fixed rows into it, it
  writes the values that are there.)
\<close>

theorem stageTwo_frame:
  assumes "stageTwo fmin (h, s) sample_idx = Inr ((h', s'), t)"
    and "autocalibrated_coords s < length h"
  shows "s' = s \<and> (\<forall>a<length h. h' ! a = h ! a) \<and> length h \<le> t \<and> t < length h'"
proof -
  from assms(1) obtain R where
    c: "costOpt fmin h (autocalibrated_coords s) R (fixed_anchors s) (verbose s) = Inr (h', t)"
    and s: "s' = s"
    by (auto simp: stageTwo_def split: sum.splits)
  from costOpt_frame [OF c assms(2)] s show ?thesis by simp
qed

theorem stageTwo_frame_witness:
  "stageTwo (fmin_to [0, 0, 0, 0, 0, 2])
     ([[[0, 0, 0], [0, 0, 1]], [[0, 0, 0], [0, 0, 1]]],
      (init_main [[[- 1, 2]], [[2, - 1]]] 0 [True, False])\<lparr>autocalibrated_coords := 1\<rparr>) (Some 0)
   = Inr (([[[0, 0, 0], [0, 0, 1]], [[0, 0, 0], [0, 0, 1]], [[0, 0, 0], [0, 0, 1]],
            [[0, 0, 0], [0, 0, 1]], [[0, 0, 0], [0, 0, 2]]],
      (init_main [[[- 1, 2]], [[2, - 1]]] 0 [True, False])\<lparr>autocalibrated_coords := 1\<rparr>), 4)
   \<and> autocalibrated_coords
        ((init_main [[[- 1, 2]], [[2, - 1]]] 0 [True, False])\<lparr>autocalibrated_coords := 1\<rparr>)
       < length [[[0, 0, 0], [0, 0, 1]], [[0, 0, 0], [0, 0, 1 :: real]]]
   \<and> [[[0, 0, 0], [0, 0, 1]], [[0, 0, 0], [0, 0, 1]], [[0, 0, 0], [0, 0, 1]],
          [[0, 0, 0], [0, 0, 1]], [[0, 0, 0], [0, 0, 2 :: real]]] ! 1
         = [[[0, 0, 0], [0, 0, 1]], [[0, 0, 0], [0, 0, 1]]] ! 1
   \<and> length [[[0, 0, 0], [0, 0, 1]], [[0, 0, 0], [0, 0, 1 :: real]]] \<le> 4"
proof -
  have a: "autocalibrated_coords
        ((init_main [[[- 1, 2]], [[2, - 1]]] 0 [True, False])\<lparr>autocalibrated_coords := 1\<rparr>)
       < length [[[0, 0, 0], [0, 0, 1]], [[0, 0, 0], [0, 0, 1 :: real]]]"
    by simp
  have "(1 :: nat) < length [[[0, 0, 0], [0, 0, 1]], [[0, 0, 0], [0, 0, 1 :: real]]]"
    by simp
  with stageTwo_frame [OF stageTwo_example a] stageTwo_example a show ?thesis
    by blast
qed


subsection \<open>stageOne and the specified iteration\<close>

lemma gather_fold:
  "fold (\<lambda>k (cs, rs). if S ! i ! k < 0 then (cs, rs)
                         else (cs @ [c ! k], rs @ [S ! i ! k])) xs (cs0, rs0)
   = (cs0 @ map (\<lambda>k. c ! k) (filter (\<lambda>k. \<not> S ! i ! k < 0) xs),
      rs0 @ map (\<lambda>k. S ! i ! k) (filter (\<lambda>k. \<not> S ! i ! k < 0) xs))"
  by (induction xs arbitrary: cs0 rs0) simp_all

lemma gather_eq:
  "gather S c n i = (map (\<lambda>k. c ! k) (filter (\<lambda>k. \<not> S ! i ! k < 0) [0..<n]),
                     map (\<lambda>k. S ! i ! k) (filter (\<lambda>k. \<not> S ! i ! k < 0) [0..<n]))"
  unfolding gather_def by (simp add: gather_fold)

lemma neighbours_diag:
  assumes "S ! i ! i = - 1"
  shows "filter (\<lambda>k. \<not> S ! i ! k < 0) [0..<length S] = spec_neighbours S i"
  unfolding spec_neighbours_def
  by (rule filter_cong) (use assms in \<open>auto simp: not_less\<close>)

lemma update_anchor_spec:
  assumes "S ! i ! i = - 1"
  shows "update_anchor pinv S fixed m (length S) i c
           = spec_anchor (coordinatesOpt pinv) S fixed m c i"
  by (cases "coordinatesOpt pinv (map ((!) c) (spec_neighbours S i))
               (map ((!) (S ! i)) (spec_neighbours S i))")
     (simp_all add: update_anchor_def spec_anchor_def gather_eq neighbours_diag [OF assms] Let_def)

lemma foldl_Inl:
  "foldl (\<lambda>acc i. case acc of Inl e \<Rightarrow> Inl e | Inr cur \<Rightarrow> f cur i) (Inl e) xs = Inl e"
  by (induction xs) simp_all

lemma anchors_loop_spec:
  assumes "\<forall>i\<in>set xs. S ! i ! i = - 1"
  shows "anchors_loop pinv S fixed m (length S) xs c
           = foldl (\<lambda>acc i. case acc of Inl e \<Rightarrow> Inl e
                            | Inr cur \<Rightarrow> spec_anchor (coordinatesOpt pinv) S fixed m cur i)
               (Inr c) xs"
  using assms
proof (induction xs arbitrary: c)
  case Nil
  then show ?case by simp
next
  case (Cons i xs)
  then have d: "S ! i ! i = - 1" and r: "\<forall>i\<in>set xs. S ! i ! i = - 1" by simp_all
  show ?case
  proof (cases "spec_anchor (coordinatesOpt pinv) S fixed m c i")
    case (Inl e)
    then show ?thesis by (simp add: update_anchor_spec [OF d] foldl_Inl)
  next
    case (Inr c')
    then show ?thesis using Cons.IH [OF r] by (simp add: update_anchor_spec [OF d])
  qed
qed

lemma pass_spec:
  assumes "\<forall>i<length S. S ! i ! i = - 1"
  shows "anchors_loop pinv S fixed m (length S) [0..<length S] c
           = spec_pass (coordinatesOpt pinv) S fixed m c"
  unfolding spec_pass_def using assms by (intro anchors_loop_spec) simp

lemma sq_sum_nonneg: "0 \<le> sq_sum v"
  unfolding sq_sum_def by (rule sum_list_nonneg) auto

lemma sq_sum_vsub: "sq_sum (vsub a b) = (\<Sum>(x, y)\<leftarrow>zip a b. (x - y) ^ 2)"
  by (simp add: sq_sum_def vsub_def comp_def case_prod_unfold)

lemma norm_spec: "\<bar>norm_fro (msub a b)\<bar> = spec_norm a b"
proof -
  have "0 \<le> sum_list (map sq_sum (msub a b))"
    by (rule sum_list_nonneg) (auto simp: sq_sum_nonneg)
  then have "\<bar>norm_fro (msub a b)\<bar> = norm_fro (msub a b)"
    by (simp add: norm_fro_def)
  also have "\<dots> = spec_norm a b"
    by (simp add: norm_fro_def spec_norm_def msub_def comp_def case_prod_unfold sq_sum_vsub)
  finally show ?thesis .
qed

lemma iterate_spec:
  assumes "\<forall>i<length S. S ! i ! i = - 1"
  shows "iterate pinv S fixed m th (length S) t c
           = spec_iterations (coordinatesOpt pinv) S fixed m th t c"
proof (induction t arbitrary: c)
  case 0
  then show ?case by simp
next
  case (Suc t)
  show ?case
    by (cases "spec_pass (coordinatesOpt pinv) S fixed m c")
       (simp_all add: pass_spec [OF assms] norm_spec Suc.IH)
qed

lemma length_stageOne_samples:
  "stageOne_samples s idx = Inr R \<Longrightarrow> length R = length (samples_ijk s)"
  by (auto simp: stageOne_samples_def median_ik_def slice_ik_def Let_def
        split: option.splits if_splits)

lemma coordinatesOpt_example:
  "coordinatesOpt pinv_diagonal [[1, 0, 0], [0, 1, 0], [0, 0, 1], [0, 0, 0]] [1, 1, 1, 1]
     = Inr [1 / 2, 1 / 2, 1 / 2]"
  by (simp add: coordinatesOpt_def Let_def upt_conv_Cons vsub_def sq_sum_def dot_def
        pinv_diagonal_def)

lemma stageOne_samples_example:
  "stageOne_samples
     (init [[[- 1, - 1, - 1, - 1, - 1]], [[- 1, - 1, - 1, - 1, - 1]], [[- 1, - 1, - 1, - 1, - 1]],
            [[- 1, - 1, - 1, - 1, - 1]], [[1, 1, 1, 1, - 1]]] 0
        [True, True, True, True, False] 3 (1 / 100) 4 (1 / 10) (9 / 10) False) (Some 0)
   = Inr [[- 1, - 1, - 1, - 1, - 1], [- 1, - 1, - 1, - 1, - 1], [- 1, - 1, - 1, - 1, - 1],
          [- 1, - 1, - 1, - 1, - 1], [1, 1, 1, 1, - 1]]"
  by (simp add: stageOne_samples_def init_def slice_ik_def n_samples_def)

lemma diagonal_example:
  "\<forall>i<length [[- 1, - 1, - 1, - 1, - 1], [- 1, - 1, - 1, - 1, - 1], [- 1, - 1, - 1, - 1, - 1],
          [- 1, - 1, - 1, - 1, - 1], [1, 1, 1, 1, - 1 :: real]].
     [[- 1, - 1, - 1, - 1, - 1], [- 1, - 1, - 1, - 1, - 1], [- 1, - 1, - 1, - 1, - 1],
          [- 1, - 1, - 1, - 1, - 1], [1, 1, 1, 1, - 1 :: real]] ! i ! i = - 1"
  by (simp add: All_less_Suc)

lemma spec_pass_example:
  "spec_pass (coordinatesOpt pinv_diagonal)
     [[- 1, - 1, - 1, - 1, - 1], [- 1, - 1, - 1, - 1, - 1], [- 1, - 1, - 1, - 1, - 1],
      [- 1, - 1, - 1, - 1, - 1], [1, 1, 1, 1, - 1]]
     [True, True, True, True, False] 4
     [[1, 0, 0], [0, 1, 0], [0, 0, 1], [0, 0, 0], [x, y, z]]
   = Inr [[1, 0, 0], [0, 1, 0], [0, 0, 1], [0, 0, 0], [1 / 2, 1 / 2, 1 / 2]]"
  by (simp add: spec_pass_def spec_anchor_def spec_neighbours_def upt_conv_Cons coordinatesOpt_example)


lemma spec_refine_example:
  "spec_refine (coordinatesOpt pinv_diagonal)
     [[- 1, - 1, - 1, - 1, - 1], [- 1, - 1, - 1, - 1, - 1], [- 1, - 1, - 1, - 1, - 1],
      [- 1, - 1, - 1, - 1, - 1], [1, 1, 1, 1, - 1]]
     [[1, 0, 0], [0, 1, 0], [0, 0, 1], [0, 0, 0], [1 / 2, 1 / 2, 3 / 2]]
     [True, True, True, True, False] 3 (1 / 100) 4
   = Inr [[1, 0, 0], [0, 1, 0], [0, 0, 1], [0, 0, 0], [1 / 2, 1 / 2, 1 / 2]]"
  by (simp add: spec_refine_def numeral_3_eq_3 spec_pass_example spec_norm_def)


text \<open>
  C4. When every diagonal entry of the range matrix of the run is -1, \<open>stageOne\<close> is the
  specified iteration: it works on a new copy of the initial guess, makes at most
  \<open>max_iters\<close> passes, in a pass takes the anchors in index order, skips a fixed anchor,
  gathers the anchors with a range that is not negative together with their estimates as
  they are at that moment of the pass, replaces the estimate by the result of the
  subroutine when there are at least \<open>LSq_min_anchors\<close> neighbours and leaves it
  otherwise, and stops after a pass exactly when the norm of the change of the whole
  estimate is below \<open>convergence_thresh\<close>. The subroutine is \<open>coordinatesOpt\<close>; where
  it raises (no neighbour at all, possible only for \<open>LSq_min_anchors \<le> 0\<close>), the
  iteration raises.
\<close>

theorem stageOne_refines_spec:
  assumes "stageOne_samples s sample_idx = Inr rangeMatrix"
    and "\<forall>i<length rangeMatrix. rangeMatrix ! i ! i = - 1"
  shows "stageOne pinv (h, s) sample_idx =
     map_sum id (\<lambda>est. (h @ [est], s\<lparr>autocalibrated_coords := length h\<rparr>))
       (spec_refine (coordinatesOpt pinv) rangeMatrix (h ! initial_guess s) (fixed_anchors s)
          (max_iters s) (convergence_thresh s) (LSq_min_anchors s))"
proof -
  have n: "length (samples_ijk s) = length rangeMatrix"
    using length_stageOne_samples [OF assms(1)] by simp
  have samples: "stageOne_samples (s\<lparr>autocalibrated_coords := length h\<rparr>) sample_idx
                   = Inr rangeMatrix"
    using assms(1) by (cases sample_idx) (simp_all add: stageOne_samples_def)
  show ?thesis
    by (cases "spec_iterations (coordinatesOpt pinv) rangeMatrix (fixed_anchors s)
                 (LSq_min_anchors s) (convergence_thresh s) (nat (max_iters s))
                 (h ! initial_guess s)")
       (simp_all add: stageOne_def alloc_def Let_def samples n iterate_spec [OF assms(2)]
          spec_refine_def)
qed


theorem stageOne_refines_spec_witness:
  "stageOne pinv_diagonal
     ([[[1, 0, 0], [0, 1, 0], [0, 0, 1], [0, 0, 0], [1 / 2, 1 / 2, 3 / 2]]],
      init [[[- 1, - 1, - 1, - 1, - 1]], [[- 1, - 1, - 1, - 1, - 1]], [[- 1, - 1, - 1, - 1, - 1]],
            [[- 1, - 1, - 1, - 1, - 1]], [[1, 1, 1, 1, - 1]]] 0
        [True, True, True, True, False] 3 (1 / 100) 4 (1 / 10) (9 / 10) False) (Some 0)
   = Inr ([[[1, 0, 0], [0, 1, 0], [0, 0, 1], [0, 0, 0], [1 / 2, 1 / 2, 3 / 2]],
           [[1, 0, 0], [0, 1, 0], [0, 0, 1], [0, 0, 0], [1 / 2, 1 / 2, 1 / 2]]],
          (init [[[- 1, - 1, - 1, - 1, - 1]], [[- 1, - 1, - 1, - 1, - 1]],
                 [[- 1, - 1, - 1, - 1, - 1]], [[- 1, - 1, - 1, - 1, - 1]], [[1, 1, 1, 1, - 1]]] 0
             [True, True, True, True, False] 3 (1 / 100) 4 (1 / 10) (9 / 10) False)
           \<lparr>autocalibrated_coords := 1\<rparr>)"
  using stageOne_refines_spec [OF stageOne_samples_example diagonal_example, of pinv_diagonal
          "[[[1, 0, 0], [0, 1, 0], [0, 0, 1], [0, 0, 0], [1 / 2, 1 / 2, 3 / 2]]]"]
  by (simp add: init_def spec_refine_example)


end
